theory Spec2Isabelle
  imports Complex_Main
begin

section \<open>Exceptions as values\<close>

text \<open>
  The exceptions that \<^verbatim>\<open>accelerated_segments_ffmpeg.py\<close> can raise, as values.
  \<^item> \<open>InvalidFormat\<close>: \<^verbatim>\<open>ValueError("invalid timestamp format. Accepted format: [type]hh:mm:ss")\<close>,
    raised by the handler in \<^verbatim>\<open>__post_init__\<close>;
  \<^item> \<open>InvalidRange\<close>: \<^verbatim>\<open>ValueError("vt1 must be greater than vt2")\<close> of \<^verbatim>\<open>get_vel\<close>;
  \<^item> \<open>IndexError\<close>: an index out of range, which no handler of the file catches;
  \<^item> \<open>TypeError\<close>: subscripting \<^verbatim>\<open>None\<close>;
  \<^item> \<open>EmptyRange\<close>: the \<^verbatim>\<open>ValueError\<close> of \<^verbatim>\<open>random.randint(a, b)\<close> with \<^verbatim>\<open>a > b\<close>;
  \<^item> \<open>ZeroDivisionError\<close>: a division by zero;
  \<^item> \<open>CalledProcessError\<close>: \<^verbatim>\<open>subprocess.check_output\<close> on a failing tool.
\<close>

datatype error =
  InvalidFormat | InvalidRange | IndexError | TypeError | EmptyRange
  | ZeroDivisionError | CalledProcessError

text \<open>Sequencing of fallible steps: the first exception ends the computation.\<close>

definition and_then :: "error + 'a \<Rightarrow> ('a \<Rightarrow> error + 'b) \<Rightarrow> error + 'b" where
  "and_then r f = (case r of Inl e \<Rightarrow> Inl e | Inr x \<Rightarrow> f x)"

section \<open>The string operations of Python that the parser uses\<close>

text \<open>
  Strings are lists of characters with code points below 256; the characters
  beyond them, some of which Python's \<^verbatim>\<open>int\<close> also reads as digits or spaces, are
  outside this model.

  \<^verbatim>\<open>s.split(":")\<close>: the fields between the separators; never the empty list.
\<close>

fun split :: "char \<Rightarrow> string \<Rightarrow> string list" where
  "split sep [] = [[]]"
| "split sep (c # cs) =
     (if c = sep then [] # split sep cs
      else (case split sep cs of
              [] \<Rightarrow> [[c]]
            | f # fs \<Rightarrow> (c # f) # fs))"

text \<open>\<^verbatim>\<open>s.replace(t, "")\<close> for a one-character \<open>t\<close>: every occurrence goes.\<close>

definition replace_empty :: "string \<Rightarrow> char \<Rightarrow> string" where
  "replace_empty s t = filter (\<lambda>c. c \<noteq> t) s"

text \<open>
  \<^verbatim>\<open>int(s)\<close> on a string, base 10: surrounding white space is dropped, one sign
  is allowed, then decimal digits, where single underscores may stand between two
  digits. \<open>None\<close> is the \<^verbatim>\<open>ValueError\<close>.

  The white space that \<^verbatim>\<open>int\<close> drops is not that of \<^verbatim>\<open>str.strip\<close>: a character
  below 127 is kept as it is and dropped when it is one of the six ASCII spaces
  (tab, line feed, vertical tab, form feed, carriage return, blank), so the
  separators \<^verbatim>\<open>0x1C\<close> to \<^verbatim>\<open>0x1F\<close> are not dropped; a character from 127 on becomes a
  blank first when it is Unicode white space, which below 256 are \<^verbatim>\<open>0x85\<close> and
  \<^verbatim>\<open>0xA0\<close>. No character from 127 to 255 is a decimal digit.
\<close>

definition is_space :: "char \<Rightarrow> bool" where
  "is_space c =
     (c \<in> set [CHR 0x09, CHR 0x0A, CHR 0x0B, CHR 0x0C, CHR 0x0D, CHR 0x20,
                CHR 0x85, CHR 0xA0])"

definition strip :: "string \<Rightarrow> string" where
  "strip s = rev (dropWhile is_space (rev (dropWhile is_space s)))"

definition is_digit :: "char \<Rightarrow> bool" where
  "is_digit c = (48 \<le> (of_char c :: nat) \<and> (of_char c :: nat) \<le> 57)"

definition digit_val :: "char \<Rightarrow> nat" where
  "digit_val c = of_char c - 48"

fun int_digits :: "nat \<Rightarrow> string \<Rightarrow> nat option" where
  "int_digits acc [] = Some acc"
| "int_digits acc (c # cs) =
     (if is_digit c then int_digits (10 * acc + digit_val c) cs
      else if c = CHR ''_'' \<and> cs \<noteq> [] \<and> is_digit (hd cs) then int_digits acc cs
      else None)"

definition unsigned_int :: "string \<Rightarrow> nat option" where
  "unsigned_int u =
     (case u of
        [] \<Rightarrow> None
      | c # cs \<Rightarrow> if is_digit c then int_digits 0 u else None)"

definition py_int :: "string \<Rightarrow> int option" where
  "py_int s =
     (case strip s of
        [] \<Rightarrow> None
      | c # cs \<Rightarrow>
          if c = CHR ''-'' then map_option (\<lambda>n. - int n) (unsigned_int cs)
          else if c = CHR ''+'' then map_option int (unsigned_int cs)
          else map_option int (unsigned_int (c # cs)))"

text \<open>
  \<^verbatim>\<open>str(n)\<close> of a natural number, and the format \<^verbatim>\<open>{n:02d}\<close> of an integer: at
  least two characters, filled with zeros after the sign.
\<close>

definition digit_char :: "nat \<Rightarrow> char" where
  "digit_char d = char_of (48 + d)"

fun str_nat :: "nat \<Rightarrow> string" where
  "str_nat n = (if n < 10 then [digit_char n] else str_nat (n div 10) @ [digit_char (n mod 10)])"

declare str_nat.simps [simp del]

definition format_02d :: "int \<Rightarrow> string" where
  "format_02d n =
     (if n < 0 then CHR ''-'' # str_nat (nat (- n))
      else if n < 10 then CHR ''0'' # str_nat (nat n)
      else str_nat (nat n))"

section \<open>The class \<open>VideoTimestamp\<close>\<close>

datatype orientation = Negative | Positive

record VideoTimestamp =
  timestamp :: string
  type :: char
  hour :: int
  minute :: int
  second :: int
  orientation :: orientation

text \<open>The property \<^verbatim>\<open>total_seconds\<close>.\<close>

definition total_seconds :: "VideoTimestamp \<Rightarrow> int" where
  "total_seconds vt = hour vt * 3600 + minute vt * 60 + second vt"

text \<open>
  \<^verbatim>\<open>__post_init__\<close>, first branch: all of hour, minute, second and type are given,
  and the string is written from them.
\<close>

definition render :: "char \<Rightarrow> int \<Rightarrow> int \<Rightarrow> int \<Rightarrow> string" where
  "render ty h m s =
     (let leading_char = (if ty \<noteq> CHR ''|'' then [ty] else [])
      in leading_char @ format_02d h @ '':'' @ format_02d m @ '':'' @ format_02d s)"

definition from_fields :: "char \<Rightarrow> int \<Rightarrow> int \<Rightarrow> int \<Rightarrow> orientation \<Rightarrow> VideoTimestamp" where
  "from_fields ty h m s ori =
     \<lparr>timestamp = render ty h m s, type = ty, hour = h, minute = m, second = s,
      orientation = ori\<rparr>"

text \<open>
  \<^verbatim>\<open>__post_init__\<close>, second branch: the fields are read from the string. The
  handler turns a \<^verbatim>\<open>ValueError\<close> of \<^verbatim>\<open>int\<close> into \<open>InvalidFormat\<close>; it also names
  \<^verbatim>\<open>KeyError\<close>, which nothing here raises, and not \<^verbatim>\<open>IndexError\<close>, which
  \<^verbatim>\<open>self.timestamp[0]\<close> raises on the empty string and \<^verbatim>\<open>split_timestamp[1]\<close>,
  \<^verbatim>\<open>split_timestamp[2]\<close> raise on a missing field.
\<close>

definition leading_type :: "char \<Rightarrow> char" where
  "leading_type c =
     (if c \<noteq> CHR ''+'' \<and> c \<noteq> CHR ''-'' \<and> c \<noteq> CHR ''|'' then CHR ''|'' else c)"

definition field_int :: "string list \<Rightarrow> nat \<Rightarrow> error + int" where
  "field_int fs i =
     (if i < length fs
      then (case py_int (fs ! i) of None \<Rightarrow> Inl InvalidFormat | Some n \<Rightarrow> Inr n)
      else Inl IndexError)"

definition parse :: "string \<Rightarrow> orientation \<Rightarrow> error + VideoTimestamp" where
  "parse s ori =
     (case s of
        [] \<Rightarrow> Inl IndexError
      | c # cs \<Rightarrow>
          let ty = leading_type c;
              ts = replace_empty s ty;
              split_timestamp = split CHR '':'' ts
          in and_then (field_int split_timestamp 0) (\<lambda>h.
             and_then (field_int split_timestamp 1) (\<lambda>m.
             and_then (field_int split_timestamp 2) (\<lambda>sec.
               Inr \<lparr>timestamp = ts, type = ty, hour = h, minute = m, second = sec,
                    orientation = ori\<rparr>))))"

text \<open>
  The constructor of the dataclass with its defaults: \<^verbatim>\<open>__init__\<close> stores the
  arguments and \<^verbatim>\<open>__post_init__\<close> chooses the branch.
\<close>

definition post_init ::
  "string option \<Rightarrow> char option \<Rightarrow> int option \<Rightarrow> int option \<Rightarrow> int option \<Rightarrow> orientation
     \<Rightarrow> error + VideoTimestamp" where
  "post_init ts ty h m s ori =
     (case (h, m, s, ty) of
        (Some h', Some m', Some s', Some ty') \<Rightarrow> Inr (from_fields ty' h' m' s' ori)
      | _ \<Rightarrow> (case ts of None \<Rightarrow> Inl TypeError | Some str \<Rightarrow> parse str ori))"

text \<open>\<^verbatim>\<open>VideoTimestamp(text)\<close>: only the string is given.\<close>

definition VideoTimestamp_of :: "string \<Rightarrow> error + VideoTimestamp" where
  "VideoTimestamp_of str = post_init (Some str) None None None None Positive"

text \<open>The class method \<^verbatim>\<open>from_seconds\<close>.\<close>

definition from_seconds :: "int \<Rightarrow> VideoTimestamp" where
  "from_seconds seconds =
     (let (seconds', ori) = (if seconds < 0 then (\<bar>seconds\<bar>, Negative) else (seconds, Positive))
      in from_fields CHR ''|'' (seconds' div 3600) ((seconds' mod 3600) div 60) (seconds' mod 60) ori)"

definition plus_seconds :: "VideoTimestamp \<Rightarrow> int \<Rightarrow> VideoTimestamp" where
  "plus_seconds vt seconds = from_seconds (total_seconds vt + seconds)"

definition minus_seconds :: "VideoTimestamp \<Rightarrow> int \<Rightarrow> VideoTimestamp" where
  "minus_seconds vt seconds = plus_seconds vt (- seconds)"

definition plus_vt :: "VideoTimestamp \<Rightarrow> VideoTimestamp \<Rightarrow> VideoTimestamp" where
  "plus_vt self vt = from_seconds (total_seconds self + total_seconds vt)"

definition minus_vt :: "VideoTimestamp \<Rightarrow> VideoTimestamp \<Rightarrow> VideoTimestamp" where
  "minus_vt self vt = from_seconds (total_seconds self - total_seconds vt)"

text \<open>The comparisons \<^verbatim>\<open>__lt__\<close>, \<^verbatim>\<open>__gt__\<close>, \<^verbatim>\<open>__eq__\<close>, \<^verbatim>\<open>__ge__\<close>, \<^verbatim>\<open>__le__\<close>.\<close>

definition lt :: "VideoTimestamp \<Rightarrow> VideoTimestamp \<Rightarrow> bool" where
  "lt a b = (total_seconds a < total_seconds b)"

definition gt :: "VideoTimestamp \<Rightarrow> VideoTimestamp \<Rightarrow> bool" where
  "gt a b = (total_seconds a > total_seconds b)"

definition eq :: "VideoTimestamp \<Rightarrow> VideoTimestamp \<Rightarrow> bool" where
  "eq a b = (total_seconds a = total_seconds b)"

definition ge :: "VideoTimestamp \<Rightarrow> VideoTimestamp \<Rightarrow> bool" where
  "ge a b = (gt a b \<or> eq a b)"

definition le :: "VideoTimestamp \<Rightarrow> VideoTimestamp \<Rightarrow> bool" where
  "le a b = (lt a b \<or> eq a b)"

text \<open>
  \<^verbatim>\<open>__floordiv__\<close> and \<^verbatim>\<open>__truediv__\<close>. The quotient of \<^verbatim>\<open>/\<close> is a float in
  Python; the model keeps the exact quotient. Python rounds \<^verbatim>\<open>a / b\<close> correctly,
  so truncating it gives the truncated exact quotient as long as \<open>\<bar>a\<bar> < 2 ^ 53\<close>.
\<close>

definition floordiv :: "VideoTimestamp \<Rightarrow> VideoTimestamp \<Rightarrow> error + int" where
  "floordiv a b =
     (if total_seconds b = 0 then Inl ZeroDivisionError
      else Inr (total_seconds a div total_seconds b))"

definition truediv :: "VideoTimestamp \<Rightarrow> VideoTimestamp \<Rightarrow> error + rat" where
  "truediv a b =
     (if total_seconds b = 0 then Inl ZeroDivisionError
      else Inr (of_int (total_seconds a) / of_int (total_seconds b)))"

text \<open>\<^verbatim>\<open>int(x)\<close> on a float: towards zero.\<close>

definition int_of_float :: "rat \<Rightarrow> int" where
  "int_of_float q = (if q < 0 then \<lceil>q\<rceil> else \<lfloor>q\<rfloor>)"

section \<open>Choosing the velocity\<close>

text \<open>
  \<^verbatim>\<open>random.randint(a, b)\<close>: some integer of \<open>a..b\<close>, and a \<^verbatim>\<open>ValueError\<close> when the
  range is empty. The number \<open>k\<close> is what the generator draws; every integer of
  \<open>a..b\<close> is the result for some \<open>k\<close>.
\<close>

definition randint :: "int \<Rightarrow> int \<Rightarrow> nat \<Rightarrow> error + int" where
  "randint a b k = (if b < a then Inl EmptyRange else Inr (a + int (k mod nat (b - a + 1))))"

text \<open>
  \<^verbatim>\<open>get_vel\<close>. The last argument holds the three draws of the generator, for the
  hour, the minute and the second of \<^verbatim>\<open>random_duration\<close>, in this order.
\<close>

definition get_vel ::
  "VideoTimestamp \<Rightarrow> VideoTimestamp \<Rightarrow> string \<Rightarrow> string \<Rightarrow> nat \<times> nat \<times> nat \<Rightarrow> error + int" where
  "get_vel vt1 vt2 min_speed_duration max_speed_duration draws =
     (if total_seconds (minus_vt vt1 vt2) < 0 then Inl InvalidRange
      else
        and_then (VideoTimestamp_of min_speed_duration) (\<lambda>min_d.
          if le (minus_vt vt2 vt1) min_d then Inr 1
          else
            and_then (VideoTimestamp_of max_speed_duration) (\<lambda>max_d.
            and_then (randint (hour min_d) (hour max_d) (fst draws)) (\<lambda>h.
            and_then (randint (minute min_d) (minute max_d) (fst (snd draws))) (\<lambda>m.
            and_then (randint (second min_d) (second max_d) (snd (snd draws))) (\<lambda>s.
            and_then (post_init None (Some CHR ''|'') (Some h) (Some m) (Some s) Positive)
              (\<lambda>random_duration.
            and_then (truediv (minus_vt vt2 vt1) random_duration) (\<lambda>q.
              Inr (int_of_float q)))))))))"

text \<open>The defaults of \<^verbatim>\<open>min_speed_duration\<close> and \<^verbatim>\<open>max_speed_duration\<close>.\<close>

definition default_min_speed_duration :: string where
  "default_min_speed_duration = ''00:00:10''"

definition default_max_speed_duration :: string where
  "default_max_speed_duration = ''00:00:30''"

section \<open>Building and running the commands\<close>

text \<open>
  \<^verbatim>\<open>out_folder / name\<close> is kept as the pair of the folder and the name. Of the input
  path the loop uses its string, its stem and its suffix.
\<close>

type_synonym path = "string \<times> string"

record input_path =
  path_str :: string
  stem :: string
  suffix :: string

text \<open>
  \<^verbatim>\<open>ffmpeg_cmd\<close> returns a list of arguments that its five parameters determine:
  \<^verbatim>\<open>["ffmpeg", "-ss", start, "-to", to, "-i", input, "-filter_complex", F, "-map", "[v]",
  "-map", "[a]", output]\<close>, where \<open>F\<close> is written from the floats
  \<^verbatim>\<open>round(1 / velocity, 2)\<close> and \<^verbatim>\<open>float(velocity)\<close>. The model keeps the five
  parameters, and the \<^verbatim>\<open>ZeroDivisionError\<close> of \<^verbatim>\<open>1 / velocity\<close>.
\<close>

record ffmpeg_args =
  cmd_input :: string
  cmd_output :: path
  cmd_start :: string
  cmd_to :: string
  cmd_velocity :: int

definition ffmpeg_cmd :: "string \<Rightarrow> path \<Rightarrow> string \<Rightarrow> string \<Rightarrow> int \<Rightarrow> error + ffmpeg_args" where
  "ffmpeg_cmd inp output start to velocity =
     (if velocity = 0 then Inl ZeroDivisionError
      else Inr \<lparr>cmd_input = inp, cmd_output = output, cmd_start = start, cmd_to = to,
                cmd_velocity = velocity\<rparr>)"

text \<open>
  What \<^verbatim>\<open>process_video\<close> does to the outside: the lines it prints and the commands
  it hands to \<^verbatim>\<open>subprocess.check_output\<close>, in order, and the exception that ended
  it, if any.
\<close>

datatype event = Print string | Print_cmd ffmpeg_args | Run ffmpeg_args

type_synonym 'a io = "event list \<times> (error + 'a)"

definition io_bind :: "'a io \<Rightarrow> ('a \<Rightarrow> 'b io) \<Rightarrow> 'b io" where
  "io_bind m f =
     (case m of
        (evs, Inl e) \<Rightarrow> (evs, Inl e)
      | (evs, Inr x) \<Rightarrow> (case f x of (evs', r) \<Rightarrow> (evs @ evs', r)))"

definition lift :: "error + 'a \<Rightarrow> 'a io" where
  "lift r = ([], r)"

definition skip :: "unit io" where
  "skip = ([], Inr ())"

definition print :: "string \<Rightarrow> unit io" where
  "print line = ([Print line], Inr ())"

definition print_cmd :: "ffmpeg_args \<Rightarrow> unit io" where
  "print_cmd cmd = ([Print_cmd cmd], Inr ())"

text \<open>
  The outside world: \<open>file_exists p\<close> is the answer of \<^verbatim>\<open>p.exists()\<close> when the loop
  asks (it asks once for each output path), \<open>tool_ok cmd\<close> says whether the tool
  exits with status zero on \<open>cmd\<close>, and \<open>draws i\<close> are the numbers that the
  generator draws in round \<open>i\<close> of the loop.
\<close>

record world =
  file_exists :: "path \<Rightarrow> bool"
  tool_ok :: "ffmpeg_args \<Rightarrow> bool"
  draws :: "nat \<Rightarrow> nat \<times> nat \<times> nat"

definition check_output :: "world \<Rightarrow> ffmpeg_args \<Rightarrow> unit io" where
  "check_output w cmd = ([Run cmd], if tool_ok w cmd then Inr () else Inl CalledProcessError)"

section \<open>\<open>process_video\<close>\<close>

text \<open>One round of the loop of \<^verbatim>\<open>process_video\<close>, for the index \<open>i\<close>.\<close>

definition loop_body ::
  "world \<Rightarrow> string list \<Rightarrow> VideoTimestamp \<Rightarrow> VideoTimestamp \<Rightarrow> input_path \<Rightarrow> string \<Rightarrow> nat
     \<Rightarrow> unit io" where
  "loop_body w timestamps rest_time offset input_file out_folder i =
     (let out_file_vel = (out_folder, stem input_file @ ''_'' @ str_nat i @ ''_2'' @ suffix input_file);
          out_file_rest = (out_folder, stem input_file @ ''_'' @ str_nat i @ ''_1'' @ suffix input_file)
      in
      io_bind (lift (VideoTimestamp_of (timestamps ! i))) (\<lambda>p1.
      let vt1 = minus_vt p1 offset in
      io_bind (lift (VideoTimestamp_of (timestamps ! (i + 1)))) (\<lambda>p2.
      let vt2 = minus_vt p2 offset in
      io_bind (print (''vt1: '' @ timestamp vt1)) (\<lambda>_.
      io_bind (print (''vt2: '' @ timestamp vt2)) (\<lambda>_.
      io_bind (print (''rest time: '' @ timestamp rest_time)) (\<lambda>_.
      io_bind (lift (get_vel (plus_vt vt1 rest_time) vt2
                 default_min_speed_duration default_max_speed_duration (draws w i))) (\<lambda>g.
      let vel0 = min g 70;
          (rest_to_ts, vel) =
            (if total_seconds (minus_vt vt2 vt1) < 25 then (timestamp vt2, 1)
             else (timestamp (plus_vt vt1 rest_time), vel0))
      in
      io_bind (lift (ffmpeg_cmd (path_str input_file) out_file_rest (timestamp vt1) rest_to_ts 1))
        (\<lambda>cmd_rest_seg.
      io_bind
        (if total_seconds (minus_vt vt2 vt1) > 25
         then io_bind (lift (ffmpeg_cmd (path_str input_file) out_file_vel
                         (timestamp (plus_vt vt1 rest_time)) (timestamp vt2) vel))
                (\<lambda>cmd_vel_seg.
                   if \<not> file_exists w out_file_vel then check_output w cmd_vel_seg else skip)
         else skip) (\<lambda>_.
      io_bind (print_cmd cmd_rest_seg) (\<lambda>_.
      if \<not> file_exists w out_file_rest then check_output w cmd_rest_seg else skip))))))))))"

text \<open>
  \<^verbatim>\<open>for i in range(len(timestamps) - 1)\<close>: the rounds in order, until one raises.
  Both \<open>timestamps ! i\<close> and \<open>timestamps ! (i + 1)\<close> are in range in every round.
\<close>

fun for_loop :: "(nat \<Rightarrow> unit io) \<Rightarrow> nat list \<Rightarrow> unit io" where
  "for_loop body [] = skip"
| "for_loop body (i # is) = io_bind (body i) (\<lambda>_. for_loop body is)"

definition process_video :: "world \<Rightarrow> string list \<Rightarrow> string \<Rightarrow> input_path \<Rightarrow> string \<Rightarrow> unit io" where
  "process_video w timestamps rest_time input_file out_folder =
     io_bind (lift (VideoTimestamp_of ''00:00:00'')) (\<lambda>offset.
     io_bind (lift (VideoTimestamp_of rest_time)) (\<lambda>rest.
       for_loop (loop_body w timestamps rest offset input_file out_folder)
         [0 ..< length timestamps - 1]))"

section \<open>The documented input format\<close>

text \<open>
  The format that the error message of \<^verbatim>\<open>__post_init__\<close> documents,
  \<^verbatim>\<open>[type]hh:mm:ss\<close>: an optional type character and three fields of decimal digits
  (at least one digit each) between colons.
\<close>

definition digits_only :: "string \<Rightarrow> bool" where
  "digits_only f = (f \<noteq> [] \<and> list_all is_digit f)"

definition strip_type :: "string \<Rightarrow> string" where
  "strip_type s =
     (case s of
        [] \<Rightarrow> []
      | c # cs \<Rightarrow> if c = CHR ''+'' \<or> c = CHR ''-'' \<or> c = CHR ''|'' then cs else s)"

definition is_hhmmss :: "string \<Rightarrow> bool" where
  "is_hhmmss s =
     (case split CHR '':'' (strip_type s) of
        [h, m, sec] \<Rightarrow> digits_only h \<and> digits_only m \<and> digits_only sec
      | _ \<Rightarrow> False)"

section \<open>Arithmetic of timestamps\<close>

lemma VideoTimestamp_of_parse: "VideoTimestamp_of s = parse s Positive"
  by (simp add: VideoTimestamp_of_def post_init_def)

lemma from_seconds_fields:
  "hour (from_seconds n) = \<bar>n\<bar> div 3600"
  "minute (from_seconds n) = (\<bar>n\<bar> mod 3600) div 60"
  "second (from_seconds n) = \<bar>n\<bar> mod 60"
  "type (from_seconds n) = CHR ''|''"
  "orientation (from_seconds n) = (if n < 0 then Negative else Positive)"
  "timestamp (from_seconds n) =
     render CHR ''|'' (\<bar>n\<bar> div 3600) ((\<bar>n\<bar> mod 3600) div 60) (\<bar>n\<bar> mod 60)"
  by (simp_all add: from_seconds_def from_fields_def)

lemma decompose_seconds: "(k::int) div 3600 * 3600 + k mod 3600 div 60 * 60 + k mod 60 = k"
proof -
  have "k mod 3600 mod 60 = k mod 60"
    by (simp add: mod_mod_cancel)
  moreover have "k mod 3600 div 60 * 60 + k mod 3600 mod 60 = k mod 3600"
    by simp
  moreover have "k div 3600 * 3600 + k mod 3600 = k"
    by simp
  ultimately show ?thesis by linarith
qed

lemma total_seconds_from_seconds: "total_seconds (from_seconds n) = \<bar>n\<bar>"
  by (simp add: total_seconds_def from_seconds_fields decompose_seconds)

lemma total_seconds_minus_vt:
  "total_seconds (minus_vt a b) = \<bar>total_seconds a - total_seconds b\<bar>"
  by (simp add: minus_vt_def total_seconds_from_seconds)

lemma total_seconds_plus_vt:
  "total_seconds (plus_vt a b) = \<bar>total_seconds a + total_seconds b\<bar>"
  by (simp add: plus_vt_def total_seconds_from_seconds)

text \<open>
  Claim C7. For every integer \<open>n\<close>, \<open>from_seconds n\<close> has \<open>\<bar>n\<bar>\<close> as its total of
  seconds; its hour, minute and second are the parts of \<open>\<bar>n\<bar>\<close> by 3600 and 60; its
  orientation is negative exactly when \<open>n < 0\<close>; and its type is always \<open>|\<close>.
\<close>

theorem from_seconds_absolute:
  "total_seconds (from_seconds n) = \<bar>n\<bar> \<and>
   hour (from_seconds n) = \<bar>n\<bar> div 3600 \<and>
   minute (from_seconds n) = (\<bar>n\<bar> mod 3600) div 60 \<and>
   second (from_seconds n) = \<bar>n\<bar> mod 60 \<and>
   (orientation (from_seconds n) = Negative) = (n < 0) \<and>
   type (from_seconds n) = CHR ''|''"
  by (simp add: total_seconds_from_seconds from_seconds_fields)

text \<open>
  Claim C6, as the specification states it: \<open>(a - b) + b\<close> has the total of seconds
  of \<open>a\<close>, for all \<open>a\<close> and \<open>b\<close>. It fails for 5 seconds and 10 seconds: the
  difference is 5 seconds again (the sign only goes to the orientation), and adding
  10 seconds gives 15.
\<close>

theorem minus_plus_not_inverse:
  "total_seconds (plus_vt (minus_vt (from_seconds 5) (from_seconds 10)) (from_seconds 10)) = 15 \<and>
   total_seconds (from_seconds 5) = 5"
  by (simp add: total_seconds_plus_vt total_seconds_minus_vt total_seconds_from_seconds)

text \<open>
  Claim C6, amended. The total of seconds of \<open>(a - b) + b\<close> is
  \<open>\<bar>\<bar>a - b\<bar> + b\<bar>\<close> on the totals, and it is the total of \<open>a\<close> exactly when the
  total of \<open>a\<close> is at least that of \<open>b\<close> and not negative.
\<close>

theorem minus_plus_total_seconds:
  "total_seconds (plus_vt (minus_vt a b) b) =
     \<bar>\<bar>total_seconds a - total_seconds b\<bar> + total_seconds b\<bar> \<and>
   ((total_seconds (plus_vt (minus_vt a b) b) = total_seconds a) =
      (total_seconds b \<le> total_seconds a \<and> 0 \<le> total_seconds a))"
  unfolding total_seconds_plus_vt total_seconds_minus_vt by linarith

theorem minus_plus_total_seconds_witness:
  "total_seconds (plus_vt (minus_vt (from_seconds 40) (from_seconds 5)) (from_seconds 5)) = 40 \<and>
   total_seconds (from_seconds 40) = 40"
  using minus_plus_total_seconds [of "from_seconds 40" "from_seconds 5"]
  by (simp add: total_seconds_from_seconds)


section \<open>The guard and the short branch of \<open>get_vel\<close>\<close>

lemma parse_default_min:
  "VideoTimestamp_of ''00:00:10'' =
     Inr \<lparr>timestamp = ''00:00:10'', type = CHR ''|'', hour = 0, minute = 0, second = 10,
          orientation = Positive\<rparr>"
  by code_simp

lemma parse_default_max:
  "VideoTimestamp_of ''00:00:30'' =
     Inr \<lparr>timestamp = ''00:00:30'', type = CHR ''|'', hour = 0, minute = 0, second = 30,
          orientation = Positive\<rparr>"
  by code_simp

text \<open>
  The guard of \<^verbatim>\<open>get_vel\<close> tests the total of seconds of a difference, and a
  difference comes from \<open>from_seconds\<close>: its total is an absolute value.
\<close>

lemma get_vel_guard_dead: "\<not> total_seconds (minus_vt vt1 vt2) < 0"
  by (simp add: total_seconds_minus_vt)

lemma parse_error_kinds: "parse s ori = Inl e \<Longrightarrow> e = IndexError \<or> e = InvalidFormat"
  by (auto simp: parse_def field_int_def and_then_def Let_def
      split: list.splits sum.splits option.splits if_splits)

lemma get_vel_short:
  "total_seconds (minus_vt b a) \<le> 10 \<Longrightarrow>
     get_vel a b default_min_speed_duration max_speed_duration d = Inr 1"
  by (simp add: get_vel_def get_vel_guard_dead default_min_speed_duration_def parse_default_min
      and_then_def le_def lt_def eq_def
      total_seconds_def [of "\<lparr>timestamp = _, type = _, hour = _, minute = _, second = _,
        orientation = _\<rparr>"]) linarith?

lemma get_vel_not_InvalidRange:
  "get_vel vt1 vt2 min_speed_duration max_speed_duration d \<noteq> Inl InvalidRange"
proof
  assume a: "get_vel vt1 vt2 min_speed_duration max_speed_duration d = Inl InvalidRange"
  have p: "\<And>s. parse s Positive \<noteq> Inl InvalidRange"
    using parse_error_kinds by fastforce
  from a show False
    by (auto simp: get_vel_def get_vel_guard_dead and_then_def VideoTimestamp_of_parse p
        randint_def post_init_def truediv_def
        split: sum.splits if_splits)
qed

text \<open>
  Claim C1 says that \<open>get_vel a b\<close> fails with \<open>InvalidRange\<close> whenever the total of
  \<open>a\<close> is below that of \<open>b\<close>, as for \<^verbatim>\<open>00:00:05\<close> and \<^verbatim>\<open>00:00:10\<close>. The code
  does not: on these two timestamps it returns 1, and on no arguments at all does it
  fail with \<open>InvalidRange\<close>.
\<close>

theorem get_vel_guard_never_fires:
  "VideoTimestamp_of ''00:00:05'' =
     Inr \<lparr>timestamp = ''00:00:05'', type = CHR ''|'', hour = 0, minute = 0, second = 5,
          orientation = Positive\<rparr> \<and>
   VideoTimestamp_of ''00:00:10'' =
     Inr \<lparr>timestamp = ''00:00:10'', type = CHR ''|'', hour = 0, minute = 0, second = 10,
          orientation = Positive\<rparr> \<and>
   get_vel
     \<lparr>timestamp = ''00:00:05'', type = CHR ''|'', hour = 0, minute = 0, second = 5,
      orientation = Positive\<rparr>
     \<lparr>timestamp = ''00:00:10'', type = CHR ''|'', hour = 0, minute = 0, second = 10,
      orientation = Positive\<rparr>
     default_min_speed_duration default_max_speed_duration d = Inr 1 \<and>
   get_vel vt1 vt2 min_speed_duration max_speed_duration d \<noteq> Inl InvalidRange"
proof -
  have 1: "VideoTimestamp_of ''00:00:05'' =
     Inr \<lparr>timestamp = ''00:00:05'', type = CHR ''|'', hour = 0, minute = 0, second = 5,
          orientation = Positive\<rparr>"
    by code_simp
  have 3: "total_seconds (minus_vt
      \<lparr>timestamp = ''00:00:10'', type = CHR ''|'', hour = 0, minute = 0, second = 10,
       orientation = Positive\<rparr>
      \<lparr>timestamp = ''00:00:05'', type = CHR ''|'', hour = 0, minute = 0, second = 5,
       orientation = Positive\<rparr>) \<le> 10"
    unfolding total_seconds_minus_vt by (simp add: total_seconds_def)
  show ?thesis
    using 1 parse_default_min get_vel_short [OF 3] get_vel_not_InvalidRange by simp
qed

text \<open>
  Claim C8. With the default \<^verbatim>\<open>min_speed_duration\<close>, \<open>get_vel a b\<close> returns 1
  whenever the total of seconds of \<open>b - a\<close> is at most 10; it does not fail there.
\<close>

theorem get_vel_short_gap:
  "total_seconds (minus_vt b a) \<le> 10 \<Longrightarrow>
     get_vel a b default_min_speed_duration max_speed_duration d = Inr 1"
  by (rule get_vel_short)

theorem get_vel_short_gap_witness:
  "total_seconds (minus_vt (from_seconds 7) (from_seconds 0)) \<le> 10 \<and>
   get_vel (from_seconds 0) (from_seconds 7) default_min_speed_duration
     default_max_speed_duration (0, 0, 0) = Inr 1"
proof -
  have h: "total_seconds (minus_vt (from_seconds 7) (from_seconds 0)) \<le> 10"
    by (simp add: total_seconds_minus_vt total_seconds_from_seconds)
  show ?thesis using h get_vel_short_gap [OF h] by simp
qed


section \<open>What the parser accepts and what it stores\<close>

text \<open>
  The white space of \<^verbatim>\<open>int\<close>: a blank, a tab or a no-break space around a field
  is dropped; the separator \<^verbatim>\<open>0x1F\<close> is not, and the field is not numeric.
\<close>

lemma py_int_white_space:
  "py_int '' 1'' = Some 1 \<and> py_int [CHR 0x09, CHR ''1'', CHR 0x0A] = Some 1 \<and>
   py_int [CHR 0xA0, CHR ''1'', CHR 0x85] = Some 1 \<and>
   py_int [CHR 0x1F, CHR ''1''] = None \<and> py_int [CHR ''1'', CHR 0x1C] = None \<and>
   parse (CHR 0x1F # ''1:2:3'') Positive = Inl InvalidFormat \<and>
   parse (CHR 0xA0 # ''1:2:3'') Positive =
     Inr \<lparr>timestamp = CHR 0xA0 # ''1:2:3'', type = CHR ''|'', hour = 1, minute = 2, second = 3,
          orientation = Positive\<rparr>"
  by code_simp

lemma parse_three_fields:
  assumes "3 \<le> length (split CHR '':'' (replace_empty (c # cs) (leading_type c)))"
  shows "parse (c # cs) ori =
     (case (py_int (split CHR '':'' (replace_empty (c # cs) (leading_type c)) ! 0),
            py_int (split CHR '':'' (replace_empty (c # cs) (leading_type c)) ! 1),
            py_int (split CHR '':'' (replace_empty (c # cs) (leading_type c)) ! 2)) of
        (Some h, Some m, Some sec) \<Rightarrow>
          Inr \<lparr>timestamp = replace_empty (c # cs) (leading_type c), type = leading_type c,
               hour = h, minute = m, second = sec, orientation = ori\<rparr>
      | _ \<Rightarrow> Inl InvalidFormat)"
proof -
  define fs where "fs = split CHR '':'' (replace_empty (c # cs) (leading_type c))"
  have len: "0 < length fs" "1 < length fs" "2 < length fs"
    using assms unfolding fs_def by linarith+
  have f: "field_int fs i = (case py_int (fs ! i) of None \<Rightarrow> Inl InvalidFormat | Some n \<Rightarrow> Inr n)"
    if "i < length fs" for i
    using that by (simp add: field_int_def)
  have "parse (c # cs) ori =
     and_then (field_int fs 0) (\<lambda>h.
     and_then (field_int fs 1) (\<lambda>m.
     and_then (field_int fs 2) (\<lambda>sec.
       Inr \<lparr>timestamp = replace_empty (c # cs) (leading_type c), type = leading_type c,
            hour = h, minute = m, second = sec, orientation = ori\<rparr>)))"
    by (simp add: parse_def Let_def fs_def)
  also have "\<dots> =
     (case (py_int (fs ! 0), py_int (fs ! 1), py_int (fs ! 2)) of
        (Some h, Some m, Some sec) \<Rightarrow>
          Inr \<lparr>timestamp = replace_empty (c # cs) (leading_type c), type = leading_type c,
               hour = h, minute = m, second = sec, orientation = ori\<rparr>
      | _ \<Rightarrow> Inl InvalidFormat)"
    unfolding f [OF len(1)] f [OF len(2)] f [OF len(3)]
    by (simp add: and_then_def split: option.splits)
  finally show ?thesis
    unfolding fs_def .
qed

lemma parse_stores:
  "parse s ori = Inr vt \<Longrightarrow>
     s \<noteq> [] \<and> type vt = leading_type (hd s) \<and> timestamp vt = replace_empty s (type vt)"
  by (auto simp: parse_def and_then_def Let_def split: list.splits sum.splits)

lemma parse_drops_type_char:
  "c = CHR ''+'' \<or> c = CHR ''-'' \<or> c = CHR ''|'' \<Longrightarrow>
     parse (c # rest) ori = parse (c # replace_empty rest c) ori"
  by (auto simp: parse_def leading_type_def replace_empty_def)

text \<open>
  Claim C4, as the specification states it: parsing fails with \<open>InvalidFormat\<close>
  whenever the body does not split into exactly three numeric fields. Two inputs
  show what the code does instead: \<^verbatim>\<open>1:2:3:4\<close> has four fields and is accepted, the
  fourth field being ignored; \<^verbatim>\<open>1:2\<close> has two fields and fails with \<open>IndexError\<close>.
\<close>

theorem parse_more_or_fewer_fields:
  "length (split CHR '':'' (replace_empty ''1:2:3:4'' (leading_type CHR ''1''))) = 4 \<and>
   VideoTimestamp_of ''1:2:3:4'' =
     Inr \<lparr>timestamp = ''1:2:3:4'', type = CHR ''|'', hour = 1, minute = 2, second = 3,
          orientation = Positive\<rparr> \<and>
   length (split CHR '':'' (replace_empty ''1:2'' (leading_type CHR ''1''))) = 2 \<and>
   VideoTimestamp_of ''1:2'' = Inl IndexError"
  by code_simp

text \<open>
  Claim C4, amended. When the body of a non-empty input (the input without the
  occurrences of its type character) splits into at least three fields, parsing
  fails with \<open>InvalidFormat\<close> if one of the first three fields is not numeric, and
  with no other error; otherwise it succeeds with the values of the first three
  fields, whatever follows them.
\<close>

theorem parse_InvalidFormat_iff:
  "3 \<le> length (split CHR '':'' (replace_empty (c # cs) (leading_type c))) \<Longrightarrow>
   parse (c # cs) ori =
     (case (py_int (split CHR '':'' (replace_empty (c # cs) (leading_type c)) ! 0),
            py_int (split CHR '':'' (replace_empty (c # cs) (leading_type c)) ! 1),
            py_int (split CHR '':'' (replace_empty (c # cs) (leading_type c)) ! 2)) of
        (Some h, Some m, Some sec) \<Rightarrow>
          Inr \<lparr>timestamp = replace_empty (c # cs) (leading_type c), type = leading_type c,
               hour = h, minute = m, second = sec, orientation = ori\<rparr>
      | _ \<Rightarrow> Inl InvalidFormat)"
  by (rule parse_three_fields)

theorem parse_InvalidFormat_iff_witness:
  "3 \<le> length (split CHR '':'' (replace_empty ''1:x:3'' (leading_type CHR ''1''))) \<and>
   parse ''1:x:3'' Positive = Inl InvalidFormat \<and>
   3 \<le> length (split CHR '':'' (replace_empty ''-1:2:3:x'' (leading_type CHR ''-''))) \<and>
   parse ''-1:2:3:x'' Positive =
     Inr \<lparr>timestamp = ''1:2:3:x'', type = CHR ''-'', hour = 1, minute = 2, second = 3,
          orientation = Positive\<rparr>"
proof -
  have a: "3 \<le> length (split CHR '':'' (replace_empty ''1:x:3'' (leading_type CHR ''1'')))"
    by code_simp
  have b: "3 \<le> length (split CHR '':'' (replace_empty ''-1:2:3:x'' (leading_type CHR ''-'')))"
    by code_simp
  have c: "parse ''1:x:3'' Positive = Inl InvalidFormat"
    by code_simp
  have d: "parse ''-1:2:3:x'' Positive =
     Inr \<lparr>timestamp = ''1:2:3:x'', type = CHR ''-'', hour = 1, minute = 2, second = 3,
          orientation = Positive\<rparr>"
    by code_simp
  show ?thesis
    using a b c d
      parse_InvalidFormat_iff [OF a, of Positive] parse_InvalidFormat_iff [OF b, of Positive]
    by simp
qed

text \<open>
  Claim C9, as the specification states it: after parsing, the string of the
  timestamp is the zero-padded rendering, so that \<^verbatim>\<open>1:2:3\<close> gives \<^verbatim>\<open>01:02:03\<close>. The
  code keeps \<^verbatim>\<open>1:2:3\<close>; the rendering of these fields would be \<^verbatim>\<open>01:02:03\<close>.
\<close>

theorem parse_keeps_input_text:
  "VideoTimestamp_of ''1:2:3'' =
     Inr \<lparr>timestamp = ''1:2:3'', type = CHR ''|'', hour = 1, minute = 2, second = 3,
          orientation = Positive\<rparr> \<and>
   render CHR ''|'' 1 2 3 = ''01:02:03''"
  by code_simp

text \<open>
  Claim C9, amended. After parsing an accepted input, the string of the timestamp
  is the input without the occurrences of the type character: it is not written
  again from the fields, and the type character is not in it. The zero-padded
  rendering with the type character in front (none for \<open>|\<close>) is the string of a
  timestamp built from its fields, as \<open>from_seconds\<close> does.
\<close>

theorem parse_timestamp_text:
  "(VideoTimestamp_of s = Inr vt \<longrightarrow>
      timestamp vt = replace_empty s (type vt) \<and> type vt = leading_type (hd s)) \<and>
   timestamp (from_fields ty h m sec ori) =
     (if ty \<noteq> CHR ''|'' then [ty] else []) @
       format_02d h @ '':'' @ format_02d m @ '':'' @ format_02d sec \<and>
   timestamp (from_seconds n) = timestamp (from_fields CHR ''|'' (hour (from_seconds n))
     (minute (from_seconds n)) (second (from_seconds n)) (orientation (from_seconds n)))"
  using parse_stores [of s Positive vt]
  by (simp add: VideoTimestamp_of_parse from_fields_def render_def from_seconds_def
      split: prod.splits)

theorem parse_timestamp_text_witness:
  "VideoTimestamp_of ''+1:2:3'' =
     Inr \<lparr>timestamp = ''1:2:3'', type = CHR ''+'', hour = 1, minute = 2, second = 3,
          orientation = Positive\<rparr> \<and>
   replace_empty ''+1:2:3'' CHR ''+'' = ''1:2:3'' \<and>
   timestamp (from_fields CHR ''+'' 1 2 3 Positive) = ''+01:02:03''"
proof -
  have a: "VideoTimestamp_of ''+1:2:3'' =
     Inr \<lparr>timestamp = ''1:2:3'', type = CHR ''+'', hour = 1, minute = 2, second = 3,
          orientation = Positive\<rparr>"
    by code_simp
  have b: "replace_empty ''+1:2:3'' CHR ''+'' = ''1:2:3''"
    by code_simp
  have c: "timestamp (from_fields CHR ''+'' 1 2 3 Positive) = ''+01:02:03''"
    by code_simp
  show ?thesis
    using a b c parse_timestamp_text [of "''+1:2:3''"
        "\<lparr>timestamp = ''1:2:3'', type = CHR ''+'', hour = 1, minute = 2, second = 3,
          orientation = Positive\<rparr>" "CHR ''+''" 1 2 3 Positive 0]
    by simp
qed

text \<open>
  Claim C10. When the first character is \<^verbatim>\<open>+\<close> or \<^verbatim>\<open>-\<close>, every occurrence of it
  is removed from the whole string before the split: the occurrences after the
  first one do not change the result, and the stored string has none. So
  \<^verbatim>\<open>+01:+2:03\<close> is accepted, with hour 1, minute 2 and second 3.
\<close>

theorem parse_removes_every_sign:
  "(c = CHR ''+'' \<or> c = CHR ''-'' \<longrightarrow>
      VideoTimestamp_of (c # rest) = VideoTimestamp_of (c # replace_empty rest c) \<and>
      (\<forall>vt. VideoTimestamp_of (c # rest) = Inr vt \<longrightarrow>
         type vt = c \<and> timestamp vt = replace_empty rest c \<and> c \<notin> set (timestamp vt))) \<and>
   VideoTimestamp_of ''+01:+2:03'' =
     Inr \<lparr>timestamp = ''01:2:03'', type = CHR ''+'', hour = 1, minute = 2, second = 3,
          orientation = Positive\<rparr>"
proof -
  have ex: "VideoTimestamp_of ''+01:+2:03'' =
     Inr \<lparr>timestamp = ''01:2:03'', type = CHR ''+'', hour = 1, minute = 2, second = 3,
          orientation = Positive\<rparr>"
    by code_simp
  have gen: "VideoTimestamp_of (c # rest) = VideoTimestamp_of (c # replace_empty rest c) \<and>
      (\<forall>vt. VideoTimestamp_of (c # rest) = Inr vt \<longrightarrow>
         type vt = c \<and> timestamp vt = replace_empty rest c \<and> c \<notin> set (timestamp vt))"
    if c: "c = CHR ''+'' \<or> c = CHR ''-''"
  proof -
    have l: "leading_type c = c"
      using c by (auto simp: leading_type_def)
    have "VideoTimestamp_of (c # rest) = VideoTimestamp_of (c # replace_empty rest c)"
      unfolding VideoTimestamp_of_parse
      using c parse_drops_type_char [of c rest Positive] by blast
    moreover have "type vt = c \<and> timestamp vt = replace_empty rest c \<and> c \<notin> set (timestamp vt)"
      if "VideoTimestamp_of (c # rest) = Inr vt" for vt
      using parse_stores [of "c # rest" Positive vt] that l
      by (simp add: VideoTimestamp_of_parse replace_empty_def)
    ultimately show ?thesis by blast
  qed
  show ?thesis using ex gen by blast
qed

theorem parse_removes_every_sign_witness:
  "VideoTimestamp_of ''-1:-2:-3'' = VideoTimestamp_of ''-1:2:3'' \<and>
   VideoTimestamp_of ''-1:-2:-3'' =
     Inr \<lparr>timestamp = ''1:2:3'', type = CHR ''-'', hour = 1, minute = 2, second = 3,
          orientation = Positive\<rparr> \<and>
   CHR ''-'' \<notin> set ''1:2:3''"
proof -
  have a: "VideoTimestamp_of ''-1:-2:-3'' =
     Inr \<lparr>timestamp = ''1:2:3'', type = CHR ''-'', hour = 1, minute = 2, second = 3,
          orientation = Positive\<rparr>"
    by code_simp
  have b: "replace_empty ''1:-2:-3'' CHR ''-'' = ''1:2:3''"
    by code_simp
  show ?thesis
    using a b parse_removes_every_sign [of "CHR ''-''" "''1:-2:-3''"]
    by simp
qed


section \<open>Reading back what was written\<close>

subsection \<open>Digits\<close>

lemma is_digit_digit_char: "d < 10 \<Longrightarrow> is_digit (digit_char d)"
  by (simp add: is_digit_def digit_char_def)

lemma digit_val_digit_char: "d < 10 \<Longrightarrow> digit_val (digit_char d) = d"
  by (simp add: digit_val_def digit_char_def)

lemma digit_not_space: "is_digit c \<Longrightarrow> \<not> is_space c"
  by (auto simp: is_digit_def is_space_def)

lemma digit_not_special:
  "is_digit c \<Longrightarrow>
     c \<noteq> CHR ''-'' \<and> c \<noteq> CHR ''+'' \<and> c \<noteq> CHR ''|'' \<and> c \<noteq> CHR '':'' \<and> c \<noteq> CHR ''_''"
  by (auto simp: is_digit_def)

lemma str_nat_nonempty: "str_nat n \<noteq> []"
  by (subst str_nat.simps) simp

lemma str_nat_digits: "list_all is_digit (str_nat n)"
proof (induction n rule: str_nat.induct)
  case (1 n)
  show ?case
  proof (cases "n < 10")
    case True
    then show ?thesis
      by (subst str_nat.simps) (simp add: is_digit_digit_char)
  next
    case False
    with 1 show ?thesis
      by (subst str_nat.simps) (simp add: is_digit_digit_char)
  qed
qed

lemma int_digits_all_digits:
  "list_all is_digit xs \<Longrightarrow>
     int_digits acc xs = Some (foldl (\<lambda>a c. 10 * a + digit_val c) acc xs)"
  by (induction xs arbitrary: acc) simp_all

lemma foldl_str_nat: "foldl (\<lambda>a c. 10 * a + digit_val c) 0 (str_nat n) = n"
proof (induction n rule: str_nat.induct)
  case (1 n)
  show ?case
  proof (cases "n < 10")
    case True
    then have "str_nat n = [digit_char n]"
      by (subst str_nat.simps) simp
    with True show ?thesis
      by (simp add: digit_val_digit_char)
  next
    case False
    then have e: "str_nat n = str_nat (n div 10) @ [digit_char (n mod 10)]"
      by (subst str_nat.simps) simp
    have ih: "foldl (\<lambda>a c. 10 * a + digit_val c) 0 (str_nat (n div 10)) = n div 10"
      using 1 False by simp
    have "n mod 10 < 10"
      by simp
    then have dv: "digit_val (digit_char (n mod 10)) = n mod 10"
      by (rule digit_val_digit_char)
    show ?thesis
      unfolding e by (simp add: ih dv)
  qed
qed

lemma strip_id:
  assumes "s \<noteq> []" and "\<not> is_space (hd s)" and "\<not> is_space (last s)"
  shows "strip s = s"
proof -
  have 1: "dropWhile is_space s = s"
    using assms(1,2) by (cases s) simp_all
  have "rev s \<noteq> []" and "\<not> is_space (hd (rev s))"
    using assms(1,3) by (simp_all add: hd_rev)
  then have 2: "dropWhile is_space (rev s) = rev s"
    by (cases "rev s") simp_all
  show ?thesis
    by (simp add: strip_def 1 2)
qed

lemma py_int_digits_only:
  assumes "digits_only f"
  shows "py_int f = Some (int (foldl (\<lambda>a c. 10 * a + digit_val c) 0 f))"
proof -
  from assms obtain c cs where f: "f = c # cs" and all: "list_all is_digit f"
    by (cases f) (auto simp: digits_only_def)
  have c: "is_digit c"
    using all f by simp
  have "last f \<in> set f"
    using f by (intro last_in_set) simp
  then have "is_digit (last f)"
    using all by (simp add: list_all_iff)
  then have s: "strip f = f"
    using f c by (intro strip_id) (simp_all add: digit_not_space)
  have "unsigned_int f = Some (foldl (\<lambda>a c. 10 * a + digit_val c) 0 f)"
    using int_digits_all_digits [OF all, of 0] c by (simp add: unsigned_int_def f)
  then show ?thesis
    using digit_not_special [OF c] by (simp add: py_int_def s) (simp add: f)
qed

lemma py_int_nonneg_format:
  assumes "0 \<le> n"
  shows "digits_only (format_02d n)" and "py_int (format_02d n) = Some n"
proof -
  show d: "digits_only (format_02d n)"
    using assms str_nat_digits [of "nat n"] str_nat_nonempty [of "nat n"]
    by (simp add: format_02d_def digits_only_def is_digit_def)
  have "foldl (\<lambda>a c. 10 * a + digit_val c) 0 (format_02d n) = nat n"
    using assms foldl_str_nat [of "nat n"] by (simp add: format_02d_def digit_val_def)
  then show "py_int (format_02d n) = Some n"
    using py_int_digits_only [OF d] assms by simp
qed

lemma py_int_negative_format:
  assumes "n < 0"
  shows "py_int (format_02d n) = Some n"
proof -
  let ?d = "str_nat (nat (- n))"
  have d: "digits_only ?d"
    by (simp add: digits_only_def str_nat_nonempty str_nat_digits)
  have "last ?d \<in> set ?d"
    by (intro last_in_set) (rule str_nat_nonempty)
  then have l: "is_digit (last ?d)"
    using str_nat_digits [of "nat (- n)"] by (simp add: list_all_iff)
  have ms: "\<not> is_space CHR ''-''"
    by (simp add: is_space_def)
  have "strip (CHR ''-'' # ?d) = CHR ''-'' # ?d"
    using digit_not_space [OF l] ms by (intro strip_id) (simp_all add: str_nat_nonempty)
  moreover obtain c cs where cs: "?d = c # cs"
    using str_nat_nonempty [of "nat (- n)"] by (cases ?d) auto
  moreover have "is_digit c"
    using str_nat_digits [of "nat (- n)"] cs by simp
  moreover have "int_digits 0 ?d = Some (nat (- n))"
    using int_digits_all_digits [OF str_nat_digits, of 0 "nat (- n)"] foldl_str_nat by simp
  ultimately show ?thesis
    using assms by (simp add: py_int_def format_02d_def unsigned_int_def)
qed

lemma py_int_format_02d: "py_int (format_02d n) = Some n"
  using py_int_nonneg_format(2) [of n] py_int_negative_format [of n] by linarith

lemma format_02d_chars: "c \<in> set (format_02d n) \<Longrightarrow> is_digit c \<or> c = CHR ''-''"
proof -
  assume a: "c \<in> set (format_02d n)"
  have d: "is_digit x" if "x \<in> set (str_nat k)" for x k
    using str_nat_digits [of k] that by (simp add: list_all_iff)
  have z: "is_digit CHR ''0''"
    by (simp add: is_digit_def)
  from a have "c = CHR ''-'' \<or> c = CHR ''0'' \<or> c \<in> set (str_nat (nat (- n))) \<or>
      c \<in> set (str_nat (nat n))"
    by (auto simp: format_02d_def split: if_splits)
  then show ?thesis
    using d z by blast
qed

lemma format_02d_chars_nonneg: "0 \<le> n \<Longrightarrow> c \<in> set (format_02d n) \<Longrightarrow> is_digit c"
  using py_int_nonneg_format(1) [of n] by (simp add: digits_only_def list_all_iff)

lemma format_02d_nonempty: "format_02d n \<noteq> []"
  by (simp add: format_02d_def str_nat_nonempty)

subsection \<open>Fields\<close>

lemma split_no_sep: "sep \<notin> set a \<Longrightarrow> split sep a = [a]"
  by (induction a) auto

lemma split_append_sep: "sep \<notin> set a \<Longrightarrow> split sep (a @ sep # b) = a # split sep b"
  by (induction a) auto

lemma split_chars:
  "x \<in> set s \<Longrightarrow> x \<noteq> sep \<Longrightarrow> \<exists>f \<in> set (split sep s). x \<in> set f"
  by (induction s) (auto split: list.splits)

lemma parse_body:
  assumes "replace_empty (c # cs) (leading_type c) = b"
    and "split CHR '':'' b = [x, y, z]"
    and "py_int x = Some h" and "py_int y = Some m" and "py_int z = Some sec"
  shows "parse (c # cs) ori =
     Inr \<lparr>timestamp = b, type = leading_type c, hour = h, minute = m, second = sec,
          orientation = ori\<rparr>"
  using assms by (simp add: parse_def field_int_def and_then_def)

lemma split_render:
  "split CHR '':'' (format_02d h @ '':'' @ format_02d m @ '':'' @ format_02d s) =
     [format_02d h, format_02d m, format_02d s]"
proof -
  have n: "CHR '':'' \<notin> set (format_02d k)" for k
    using format_02d_chars [of "CHR '':''" k] by (auto simp: is_digit_def)
  show ?thesis
    using split_append_sep [OF n, of h "format_02d m @ '':'' @ format_02d s"]
      split_append_sep [OF n, of m "format_02d s"] split_no_sep [OF n, of s]
    by simp
qed


lemma not_digit_special:
  "\<not> is_digit CHR ''+''" "\<not> is_digit CHR ''-''" "\<not> is_digit CHR ''|''" "\<not> is_digit CHR '':''"
  by (simp_all add: is_digit_def)

lemma render_body_chars:
  assumes "c \<in> set (format_02d h @ '':'' @ format_02d m @ '':'' @ format_02d s)"
  shows "is_digit c \<or> c = CHR ''-'' \<or> c = CHR '':''"
proof -
  from assms have "c \<in> set (format_02d h) \<or> c = CHR '':'' \<or> c \<in> set (format_02d m) \<or>
      c \<in> set (format_02d s)"
    by auto
  then show ?thesis
    using format_02d_chars [of c h] format_02d_chars [of c m] format_02d_chars [of c s]
    by blast
qed

lemma render_body_chars_nonneg:
  assumes "c \<in> set (format_02d h @ '':'' @ format_02d m @ '':'' @ format_02d s)"
    and "0 \<le> h" and "0 \<le> m" and "0 \<le> s"
  shows "is_digit c \<or> c = CHR '':''"
proof -
  from assms(1) have "c \<in> set (format_02d h) \<or> c = CHR '':'' \<or> c \<in> set (format_02d m) \<or>
      c \<in> set (format_02d s)"
    by auto
  then show ?thesis
    using format_02d_chars_nonneg [OF assms(2), of c] format_02d_chars_nonneg [OF assms(3), of c]
      format_02d_chars_nonneg [OF assms(4), of c]
    by blast
qed

lemma replace_empty_id: "t \<notin> set b \<Longrightarrow> replace_empty b t = b"
  by (auto simp: replace_empty_def filter_id_conv)

lemma replace_empty_head: "t \<notin> set b \<Longrightarrow> replace_empty (t # b) t = b"
  by (auto simp: replace_empty_def filter_id_conv)

text \<open>
  Parsing the rendering gives the fields back, for the three types, unless the
  rendering starts with the minus sign of a negative hour (type \<open>|\<close>) or the minus
  signs of negative fields are removed with the type character (type \<open>-\<close>).
\<close>

lemma parse_render_bar:
  assumes "0 \<le> h"
  shows "parse (render CHR ''|'' h m s) ori =
     Inr \<lparr>timestamp = render CHR ''|'' h m s, type = CHR ''|'', hour = h, minute = m,
          second = s, orientation = ori\<rparr>"
proof -
  define b where "b = format_02d h @ '':'' @ format_02d m @ '':'' @ format_02d s"
  have r: "render CHR ''|'' h m s = b"
    by (simp add: render_def b_def)
  have sp: "split CHR '':'' b = [format_02d h, format_02d m, format_02d s]"
    unfolding b_def by (rule split_render)
  have no_bar: "CHR ''|'' \<notin> set b"
    using render_body_chars [of "CHR ''|''" h m s] not_digit_special(3)
    unfolding b_def by auto
  obtain c cs where f: "format_02d h = c # cs"
    using format_02d_nonempty [of h] by (cases "format_02d h") auto
  have "c \<in> set (format_02d h)"
    unfolding f by simp
  then have "is_digit c"
    by (rule format_02d_chars_nonneg [OF assms])
  then have l: "leading_type c = CHR ''|''"
    using digit_not_special [of c] by (simp add: leading_type_def)
  have bc: "b = c # (cs @ '':'' @ format_02d m @ '':'' @ format_02d s)"
    unfolding b_def f by simp
  have "replace_empty b (leading_type c) = b"
    unfolding l using no_bar by (rule replace_empty_id)
  then have "replace_empty (c # (cs @ '':'' @ format_02d m @ '':'' @ format_02d s))
      (leading_type c) = b"
    unfolding bc [symmetric] .
  from parse_body [OF this sp py_int_format_02d py_int_format_02d py_int_format_02d, of ori]
  show ?thesis
    unfolding r l bc [symmetric] .
qed

lemma parse_render_signed:
  assumes ty: "ty = CHR ''+'' \<or> ty = CHR ''-''"
    and minus: "ty = CHR ''-'' \<Longrightarrow> 0 \<le> h \<and> 0 \<le> m \<and> 0 \<le> s"
  shows "parse (render ty h m s) ori =
     Inr \<lparr>timestamp = render CHR ''|'' h m s, type = ty, hour = h, minute = m, second = s,
          orientation = ori\<rparr>"
proof -
  define b where "b = format_02d h @ '':'' @ format_02d m @ '':'' @ format_02d s"
  have r: "render CHR ''|'' h m s = b"
    by (simp add: render_def b_def)
  have nb: "ty \<noteq> CHR ''|''"
    using ty by auto
  have r': "render ty h m s = ty # b"
    using nb by (simp add: render_def b_def)
  have sp: "split CHR '':'' b = [format_02d h, format_02d m, format_02d s]"
    unfolding b_def by (rule split_render)
  have notin: "ty \<notin> set b"
  proof (cases "ty = CHR ''+''")
    case True
    show ?thesis
      using render_body_chars [of "CHR ''+''" h m s] not_digit_special(1)
      unfolding b_def True by auto
  next
    case False
    with ty have m: "ty = CHR ''-''"
      by simp
    from minus [OF m] have n: "0 \<le> h" "0 \<le> m" "0 \<le> s"
      by simp_all
    show ?thesis
      using render_body_chars_nonneg [OF _ n, of "CHR ''-''"] not_digit_special(2)
      unfolding b_def m by auto
  qed
  have l: "leading_type ty = ty"
    using ty by (auto simp: leading_type_def)
  have "replace_empty (ty # b) (leading_type ty) = b"
    unfolding l using notin by (rule replace_empty_head)
  from parse_body [OF this sp py_int_format_02d py_int_format_02d py_int_format_02d, of ori]
  show ?thesis
    unfolding r r' l .
qed

lemma parse_render:
  assumes ty: "ty = CHR ''+'' \<or> ty = CHR ''-'' \<or> ty = CHR ''|''"
    and bar: "ty = CHR ''|'' \<Longrightarrow> 0 \<le> h"
    and minus: "ty = CHR ''-'' \<Longrightarrow> 0 \<le> h \<and> 0 \<le> m \<and> 0 \<le> s"
  shows "parse (render ty h m s) ori =
     Inr \<lparr>timestamp = render CHR ''|'' h m s, type = ty, hour = h, minute = m, second = s,
          orientation = ori\<rparr>"
proof (cases "ty = CHR ''|''")
  case True
  show ?thesis
    unfolding True by (rule parse_render_bar [OF bar [OF True]])
next
  case False
  with ty have "ty = CHR ''+'' \<or> ty = CHR ''-''"
    by simp
  then show ?thesis
    using minus by (rule parse_render_signed)
qed

text \<open>An input of the documented format is accepted, with fields that are not negative.\<close>

lemma hhmmss_parse:
  assumes "is_hhmmss s"
  shows "\<exists>ty h m sec. VideoTimestamp_of s =
           Inr \<lparr>timestamp = strip_type s, type = ty, hour = h, minute = m, second = sec,
                orientation = Positive\<rparr> \<and>
         (ty = CHR ''+'' \<or> ty = CHR ''-'' \<or> ty = CHR ''|'') \<and> 0 \<le> h \<and> 0 \<le> m \<and> 0 \<le> sec \<and>
         VideoTimestamp_of (strip_type s) =
           Inr \<lparr>timestamp = strip_type s, type = CHR ''|'', hour = h, minute = m, second = sec,
                orientation = Positive\<rparr>"
proof -
  from assms obtain x y z where sp: "split CHR '':'' (strip_type s) = [x, y, z]"
    and d: "digits_only x" "digits_only y" "digits_only z"
    by (auto simp: is_hhmmss_def split: list.splits)
  have chars: "is_digit c \<or> c = CHR '':''" if "c \<in> set (strip_type s)" for c
    using split_chars [OF that, of "CHR '':''"] d sp
    by (auto simp: digits_only_def list_all_iff)
  have plain: "replace_empty (strip_type s) t = strip_type s"
    if "t = CHR ''+'' \<or> t = CHR ''-'' \<or> t = CHR ''|''" for t
  proof -
    have "c \<noteq> t" if "c \<in> set (strip_type s)" for c
      using chars [OF that] digit_not_special [of c] \<open>t = CHR ''+'' \<or> t = CHR ''-'' \<or> t = CHR ''|''\<close>
      by auto
    then have "t \<notin> set (strip_type s)"
      by blast
    then show ?thesis
      by (rule replace_empty_id)
  qed
  obtain c cs where s: "s = c # cs"
    using sp by (cases s) (auto simp: strip_type_def)
  have lt: "leading_type c = CHR ''+'' \<or> leading_type c = CHR ''-'' \<or> leading_type c = CHR ''|''"
    by (auto simp: leading_type_def)
  have "replace_empty (c # cs) (leading_type c) = strip_type s"
  proof (cases "c = CHR ''+'' \<or> c = CHR ''-'' \<or> c = CHR ''|''")
    case True
    then have "strip_type s = cs" and "leading_type c = c"
      by (auto simp: s strip_type_def leading_type_def)
    then show ?thesis
      using plain [OF True] by (simp add: replace_empty_def)
  next
    case False
    then have "strip_type s = c # cs"
      by (simp add: s strip_type_def)
    then show ?thesis
      using plain [OF lt] by simp
  qed
  note p = parse_body [OF this sp py_int_digits_only [OF d(1)] py_int_digits_only [OF d(2)]
      py_int_digits_only [OF d(3)], of Positive]
  obtain c' cs' where b: "strip_type s = c' # cs'" and c': "is_digit c'"
  proof (cases x)
    case Nil
    then show ?thesis using d(1) by (simp add: digits_only_def)
  next
    case (Cons a as)
    then have "is_digit a"
      using d(1) by (simp add: digits_only_def)
    moreover have "\<exists>r. strip_type s = a # r"
      using sp Cons
      by (cases "strip_type s") (auto split: if_splits list.splits)
    ultimately show ?thesis using that by blast
  qed
  have l': "leading_type c' = CHR ''|''"
    using digit_not_special [OF c'] by (simp add: leading_type_def)
  have "replace_empty (c' # cs') (leading_type c') = strip_type s"
    using plain [of "CHR ''|''"] by (simp add: l' b)
  note q = parse_body [OF this sp py_int_digits_only [OF d(1)] py_int_digits_only [OF d(2)]
      py_int_digits_only [OF d(3)], of Positive]
  have p': "parse s Positive =
      Inr \<lparr>timestamp = strip_type s, type = leading_type c,
        hour = int (foldl (\<lambda>a c. 10 * a + digit_val c) 0 x),
        minute = int (foldl (\<lambda>a c. 10 * a + digit_val c) 0 y),
        second = int (foldl (\<lambda>a c. 10 * a + digit_val c) 0 z), orientation = Positive\<rparr>"
    using p unfolding s .
  have q': "parse (strip_type s) Positive =
      Inr \<lparr>timestamp = strip_type s, type = CHR ''|'',
        hour = int (foldl (\<lambda>a c. 10 * a + digit_val c) 0 x),
        minute = int (foldl (\<lambda>a c. 10 * a + digit_val c) 0 y),
        second = int (foldl (\<lambda>a c. 10 * a + digit_val c) 0 z), orientation = Positive\<rparr>"
    using q unfolding l' b [symmetric] .
  show ?thesis
    unfolding VideoTimestamp_of_parse p' q' using lt by simp
qed

text \<open>
  Claim C5. For every input \<open>s\<close> of the format \<^verbatim>\<open>[type]hh:mm:ss\<close>, parsing succeeds
  with a timestamp \<open>t\<close>, and parsing the rendering of \<open>t\<close> (the string that the
  class writes from the type and the fields of \<open>t\<close>) gives a timestamp equal to \<open>t\<close>
  under \<^verbatim>\<open>__eq__\<close>, that is on the total of seconds; it has the type, hour, minute
  and second of \<open>t\<close>. So does parsing the string that \<open>t\<close> stores.
\<close>

theorem parse_render_roundtrip:
  "is_hhmmss s \<Longrightarrow>
     \<exists>t t' t''.
       VideoTimestamp_of s = Inr t \<and>
       VideoTimestamp_of (render (type t) (hour t) (minute t) (second t)) = Inr t' \<and>
       eq t' t \<and> total_seconds t' = total_seconds t \<and>
       type t' = type t \<and> hour t' = hour t \<and> minute t' = minute t \<and> second t' = second t \<and>
       VideoTimestamp_of (timestamp t) = Inr t'' \<and> eq t'' t"
proof -
  assume "is_hhmmss s"
  from hhmmss_parse [OF this] obtain ty h m sec where
    t: "VideoTimestamp_of s =
           Inr \<lparr>timestamp = strip_type s, type = ty, hour = h, minute = m, second = sec,
                orientation = Positive\<rparr>"
    and ty: "ty = CHR ''+'' \<or> ty = CHR ''-'' \<or> ty = CHR ''|''"
    and nonneg: "0 \<le> h" "0 \<le> m" "0 \<le> sec"
    and t'': "VideoTimestamp_of (strip_type s) =
           Inr \<lparr>timestamp = strip_type s, type = CHR ''|'', hour = h, minute = m, second = sec,
                orientation = Positive\<rparr>"
    by blast
  have "VideoTimestamp_of (render ty h m sec) =
     Inr \<lparr>timestamp = render CHR ''|'' h m sec, type = ty, hour = h, minute = m, second = sec,
          orientation = Positive\<rparr>"
    unfolding VideoTimestamp_of_parse using ty nonneg by (intro parse_render) simp_all
  with t t'' show ?thesis
    by (simp add: eq_def total_seconds_def)
qed

theorem parse_render_roundtrip_witness:
  "is_hhmmss ''-1:2:3'' \<and>
   VideoTimestamp_of ''-1:2:3'' =
     Inr \<lparr>timestamp = ''1:2:3'', type = CHR ''-'', hour = 1, minute = 2, second = 3,
          orientation = Positive\<rparr> \<and>
   render CHR ''-'' 1 2 3 = ''-01:02:03'' \<and>
   VideoTimestamp_of ''-01:02:03'' =
     Inr \<lparr>timestamp = ''01:02:03'', type = CHR ''-'', hour = 1, minute = 2, second = 3,
          orientation = Positive\<rparr> \<and>
   VideoTimestamp_of ''1:2:3'' =
     Inr \<lparr>timestamp = ''1:2:3'', type = CHR ''|'', hour = 1, minute = 2, second = 3,
          orientation = Positive\<rparr>"
proof -
  have a: "is_hhmmss ''-1:2:3''"
    by code_simp
  have b: "VideoTimestamp_of ''-1:2:3'' =
     Inr \<lparr>timestamp = ''1:2:3'', type = CHR ''-'', hour = 1, minute = 2, second = 3,
          orientation = Positive\<rparr>"
    by code_simp
  have c: "render CHR ''-'' 1 2 3 = ''-01:02:03''"
    by code_simp
  have d: "VideoTimestamp_of ''-01:02:03'' =
     Inr \<lparr>timestamp = ''01:02:03'', type = CHR ''-'', hour = 1, minute = 2, second = 3,
          orientation = Positive\<rparr>"
    by code_simp
  have e: "VideoTimestamp_of ''1:2:3'' =
     Inr \<lparr>timestamp = ''1:2:3'', type = CHR ''|'', hour = 1, minute = 2, second = 3,
          orientation = Positive\<rparr>"
    by code_simp
  show ?thesis
    using a b c d e parse_render_roundtrip [OF a] by simp
qed


section \<open>The rounds of \<open>process_video\<close>\<close>

subsection \<open>The velocity with the default durations\<close>

lemma int_of_float_quotient:
  "0 \<le> a \<Longrightarrow> 0 < b \<Longrightarrow> int_of_float (of_int a / of_int b) = a div b"
proof -
  assume a: "0 \<le> a" and b: "0 < b"
  have "(0::rat) \<le> of_int a / of_int b"
    using a b by simp
  then have "int_of_float (of_int a / of_int b) = \<lfloor>(of_int a :: rat) / of_int b\<rfloor>"
    by (simp add: int_of_float_def)
  also have "\<dots> = a div b"
    by (rule floor_divide_of_int_eq)
  finally show ?thesis .
qed

text \<open>
  With the default durations \<^verbatim>\<open>get_vel\<close> raises nothing: the hour and the minute
  of \<^verbatim>\<open>random_duration\<close> are 0, its second is one of 10, ..., 30, and the result is
  the quotient of the gap by it, without its fraction.
\<close>

lemma get_vel_defaults:
  "get_vel a b default_min_speed_duration default_max_speed_duration d =
     Inr (if total_seconds (minus_vt b a) \<le> 10 then 1
          else total_seconds (minus_vt b a) div (10 + int (snd (snd d) mod 21)))"
proof (cases "total_seconds (minus_vt b a) \<le> 10")
  case True
  then show ?thesis
    by (simp add: get_vel_short)
next
  case False
  define n where "n = total_seconds (minus_vt b a)"
  define k where "k = 10 + int (snd (snd d) mod 21)"
  have n: "10 < n"
    using False by (simp add: n_def)
  have k: "0 < k"
    by (simp add: k_def)
  have q: "int_of_float (of_int n / of_int k) = n div k"
    using n k by (intro int_of_float_quotient) simp_all
  have "get_vel a b default_min_speed_duration default_max_speed_duration d =
      Inr (int_of_float (of_int n / of_int k))"
    using n k
    by (simp add: get_vel_def get_vel_guard_dead default_min_speed_duration_def
        default_max_speed_duration_def parse_default_min parse_default_max
        and_then_def le_def lt_def eq_def randint_def post_init_def from_fields_def
        truediv_def total_seconds_def [of "\<lparr>timestamp = _, type = _, hour = _, minute = _,
          second = _, orientation = _\<rparr>"] n_def [symmetric] k_def [symmetric])
  then have "get_vel a b default_min_speed_duration default_max_speed_duration d = Inr (n div k)"
    unfolding q .
  then show ?thesis
    using False unfolding n_def k_def by simp
qed

lemma get_vel_defaults_nonneg:
  "\<exists>g. get_vel a b default_min_speed_duration default_max_speed_duration d = Inr g \<and> 0 \<le> g"
proof -
  have "0 \<le> total_seconds (minus_vt b a)"
    by (simp add: total_seconds_minus_vt)
  then have "0 \<le> total_seconds (minus_vt b a) div (10 + int (snd (snd d) mod 21))"
    by (simp add: pos_imp_zdiv_nonneg_iff)
  then show ?thesis
    unfolding get_vel_defaults by simp
qed

subsection \<open>One round\<close>

lemma loop_body_round:
  assumes "VideoTimestamp_of (timestamps ! i) = Inr p1"
    and "VideoTimestamp_of (timestamps ! (i + 1)) = Inr p2"
    and "get_vel (plus_vt (minus_vt p1 offset) rest_time) (minus_vt p2 offset)
           default_min_speed_duration default_max_speed_duration (draws w i) = Inr g"
  shows "loop_body w timestamps rest_time offset input_file out_folder i =
     (let vt1 = minus_vt p1 offset;
          vt2 = minus_vt p2 offset;
          d = total_seconds (minus_vt vt2 vt1);
          out_file_vel = (out_folder, stem input_file @ ''_'' @ str_nat i @ ''_2'' @ suffix input_file);
          out_file_rest = (out_folder, stem input_file @ ''_'' @ str_nat i @ ''_1'' @ suffix input_file);
          prints = [Print (''vt1: '' @ timestamp vt1), Print (''vt2: '' @ timestamp vt2),
                    Print (''rest time: '' @ timestamp rest_time)];
          rest_seg = \<lparr>cmd_input = path_str input_file, cmd_output = out_file_rest,
                      cmd_start = timestamp vt1,
                      cmd_to = (if d < 25 then timestamp vt2 else timestamp (plus_vt vt1 rest_time)),
                      cmd_velocity = 1\<rparr>;
          vel_seg = \<lparr>cmd_input = path_str input_file, cmd_output = out_file_vel,
                     cmd_start = timestamp (plus_vt vt1 rest_time), cmd_to = timestamp vt2,
                     cmd_velocity = min g 70\<rparr>;
          rest_events = Print_cmd rest_seg # (if file_exists w out_file_rest then [] else [Run rest_seg]);
          rest_result = (if file_exists w out_file_rest \<or> tool_ok w rest_seg then Inr ()
                         else Inl CalledProcessError)
      in if d \<le> 25 then (prints @ rest_events, rest_result)
         else if min g 70 = 0 then (prints, Inl ZeroDivisionError)
         else if file_exists w out_file_vel then (prints @ rest_events, rest_result)
         else if tool_ok w vel_seg then (prints @ Run vel_seg # rest_events, rest_result)
         else (prints @ [Run vel_seg], Inl CalledProcessError))"
  using assms
  by (simp add: loop_body_def Let_def io_bind_def lift_def print_def print_cmd_def
      check_output_def skip_def ffmpeg_cmd_def)


lemma loop_body_run_velocity:
  assumes "Run cmd \<in> set (fst (loop_body w timestamps rest_time offset input_file out_folder i))"
  shows "1 \<le> cmd_velocity cmd \<and> cmd_velocity cmd \<le> 70"
proof (cases "VideoTimestamp_of (timestamps ! i)")
  case (Inl e)
  with assms show ?thesis
    by (simp add: loop_body_def Let_def io_bind_def lift_def)
next
  case p1: (Inr p1)
  show ?thesis
  proof (cases "VideoTimestamp_of (timestamps ! (i + 1))")
    case (Inl e)
    with assms p1 show ?thesis
      by (simp add: loop_body_def Let_def io_bind_def lift_def)
  next
    case p2: (Inr p2)
    obtain g where g: "get_vel (plus_vt (minus_vt p1 offset) rest_time) (minus_vt p2 offset)
        default_min_speed_duration default_max_speed_duration (draws w i) = Inr g" and n: "0 \<le> g"
      using get_vel_defaults_nonneg by blast
    from assms n show ?thesis
      unfolding loop_body_round [OF p1 p2 g]
      by (auto simp: Let_def split: if_splits)
  qed
qed

lemma for_loop_events:
  "ev \<in> set (fst (for_loop body js)) \<Longrightarrow> \<exists>j \<in> set js. ev \<in> set (fst (body j))"
proof (induction js)
  case Nil
  then show ?case
    by (simp add: skip_def)
next
  case (Cons j js)
  then show ?case
    by (cases "body j"; cases "snd (body j)"; cases "for_loop body js")
      (auto simp: io_bind_def)
qed

text \<open>
  When \<^verbatim>\<open>process_video\<close> runs a command, its velocity is between 1 and 70: that of
  a rest segment is 1, and an accelerated segment whose velocity is 0 is not built.
\<close>

lemma process_video_run_velocity:
  assumes "Run cmd \<in> set (fst (process_video w timestamps rest_time input_file out_folder))"
  shows "1 \<le> cmd_velocity cmd \<and> cmd_velocity cmd \<le> 70"
proof -
  from assms obtain offset rest where
    "Run cmd \<in> set (fst (for_loop (loop_body w timestamps rest offset input_file out_folder)
       [0 ..< length timestamps - 1]))"
    by (auto simp: process_video_def io_bind_def lift_def split: sum.splits prod.splits)
  then obtain j where
    "Run cmd \<in> set (fst (loop_body w timestamps rest offset input_file out_folder j))"
    using for_loop_events by blast
  then show ?thesis
    by (rule loop_body_run_velocity)
qed
text \<open>
  Claim C2 says that the multiplier of an accelerated segment,
  \<^verbatim>\<open>min(get_vel(vt1 + rest_time, vt2), 70)\<close>, is always at least 1. For the
  timestamps \<^verbatim>\<open>00:00:00\<close> and \<^verbatim>\<open>00:00:26\<close> with the rest time \<^verbatim>\<open>00:00:15\<close>, the
  gap is 26 seconds, above 25, and \<^verbatim>\<open>get_vel\<close> sees the gap of 11 seconds between
  \<^verbatim>\<open>00:00:15\<close> and \<^verbatim>\<open>00:00:26\<close>; when the generator draws 30 seconds, the quotient
  11 / 30 loses its fraction and the multiplier is 0. Then \<^verbatim>\<open>1 / velocity\<close> in
  \<^verbatim>\<open>ffmpeg_cmd\<close> raises \<^verbatim>\<open>ZeroDivisionError\<close>, after the three lines of the round are
  printed and before any command is run, whatever files exist.
\<close>

theorem process_video_velocity_zero:
  "randint 10 30 20 = Inr 30 \<and>
   get_vel (from_seconds 15) (from_seconds 26) default_min_speed_duration
     default_max_speed_duration (0, 0, 20) = Inr 0 \<and>
   min (0::int) 70 = 0 \<and>
   ffmpeg_cmd ''in.mp4'' (''out'', ''in_0_2.mp4'') ''00:00:15'' ''00:00:26'' 0 =
     Inl ZeroDivisionError \<and>
   process_video \<lparr>file_exists = (\<lambda>_. False), tool_ok = (\<lambda>_. True), draws = (\<lambda>_. (0, 0, 20))\<rparr>
     [''00:00:00'', ''00:00:26''] ''00:00:15''
     \<lparr>path_str = ''in.mp4'', stem = ''in'', suffix = ''.mp4''\<rparr> ''out'' =
     ([Print ''vt1: 00:00:00'', Print ''vt2: 00:00:26'', Print ''rest time: 00:00:15''],
      Inl ZeroDivisionError)"
  by code_simp

text \<open>
  Claim C3, as the specification states it: when the gap between the two
  timestamps is above 25 seconds, an accelerated segment is dispatched. With the
  timestamps \<^verbatim>\<open>00:00:00\<close> and \<^verbatim>\<open>00:01:40\<close> the gap is 100 seconds; when the file of
  the accelerated segment exists already, the only command that is run is that of
  the rest segment.
\<close>

theorem accelerated_segment_not_dispatched:
  "total_seconds (minus_vt (from_seconds 100) (from_seconds 0)) = 100 \<and>
   process_video
     \<lparr>file_exists = (\<lambda>p. p = (''out'', ''in_0_2.mp4'')), tool_ok = (\<lambda>_. True),
      draws = (\<lambda>_. (0, 0, 0))\<rparr>
     [''00:00:00'', ''00:01:40''] ''00:00:05''
     \<lparr>path_str = ''in.mp4'', stem = ''in'', suffix = ''.mp4''\<rparr> ''out'' =
     ([Print ''vt1: 00:00:00'', Print ''vt2: 00:01:40'', Print ''rest time: 00:00:05'',
       Print_cmd \<lparr>cmd_input = ''in.mp4'', cmd_output = (''out'', ''in_0_1.mp4''),
                  cmd_start = ''00:00:00'', cmd_to = ''00:00:05'', cmd_velocity = 1\<rparr>,
       Run \<lparr>cmd_input = ''in.mp4'', cmd_output = (''out'', ''in_0_1.mp4''),
            cmd_start = ''00:00:00'', cmd_to = ''00:00:05'', cmd_velocity = 1\<rparr>],
      Inr ())"
  by code_simp

text \<open>
  Claim C3, amended. In a round whose two timestamps are accepted, \<^verbatim>\<open>get_vel\<close>
  returns some \<open>g\<close>, not negative, and with \<open>d\<close> the total of seconds of \<open>vt2 - vt1\<close>:
  \<^item> if \<open>d < 25\<close>, one rest segment from \<open>vt1\<close> to \<open>vt2\<close> with velocity 1 is built and
    printed, and no accelerated segment;
  \<^item> if \<open>d = 25\<close>, one rest segment from \<open>vt1\<close> to \<open>vt1 + rest_time\<close> with velocity 1
    is built and printed, and no accelerated segment;
  \<^item> if \<open>d > 25\<close> and the velocity \<open>min g 70\<close> is not 0, the rest segment is that from
    \<open>vt1\<close> to \<open>vt1 + rest_time\<close>, and before it is printed the accelerated segment
    from \<open>vt1 + rest_time\<close> to \<open>vt2\<close> with the velocity \<open>min g 70\<close> is run, unless its
    file exists; when the tool fails on it, the round ends there.

  In each case the rest segment is run after it is printed, unless its file exists.
\<close>

theorem loop_body_segments:
  assumes "VideoTimestamp_of (timestamps ! i) = Inr p1"
    and "VideoTimestamp_of (timestamps ! (i + 1)) = Inr p2"
  shows "\<exists>g. get_vel (plus_vt (minus_vt p1 offset) rest_time) (minus_vt p2 offset)
           default_min_speed_duration default_max_speed_duration (draws w i) = Inr g \<and>
         0 \<le> g \<and>
     (let vt1 = minus_vt p1 offset;
          vt2 = minus_vt p2 offset;
          d = total_seconds (minus_vt vt2 vt1);
          out_file_vel = (out_folder, stem input_file @ ''_'' @ str_nat i @ ''_2'' @ suffix input_file);
          out_file_rest = (out_folder, stem input_file @ ''_'' @ str_nat i @ ''_1'' @ suffix input_file);
          prints = [Print (''vt1: '' @ timestamp vt1), Print (''vt2: '' @ timestamp vt2),
                    Print (''rest time: '' @ timestamp rest_time)];
          rest_seg = (\<lambda>to. \<lparr>cmd_input = path_str input_file, cmd_output = out_file_rest,
                      cmd_start = timestamp vt1, cmd_to = to, cmd_velocity = 1\<rparr>);
          vel_seg = \<lparr>cmd_input = path_str input_file, cmd_output = out_file_vel,
                     cmd_start = timestamp (plus_vt vt1 rest_time), cmd_to = timestamp vt2,
                     cmd_velocity = min g 70\<rparr>;
          rest_events = (\<lambda>to. Print_cmd (rest_seg to) #
                          (if file_exists w out_file_rest then [] else [Run (rest_seg to)]));
          rest_result = (\<lambda>to. if file_exists w out_file_rest \<or> tool_ok w (rest_seg to)
                          then Inr () else Inl CalledProcessError);
          round = loop_body w timestamps rest_time offset input_file out_folder i
      in (d < 25 \<longrightarrow>
            round = (prints @ rest_events (timestamp vt2), rest_result (timestamp vt2))) \<and>
         (d = 25 \<longrightarrow>
            round = (prints @ rest_events (timestamp (plus_vt vt1 rest_time)),
                     rest_result (timestamp (plus_vt vt1 rest_time)))) \<and>
         (25 < d \<and> min g 70 \<noteq> 0 \<longrightarrow>
            round =
              (if file_exists w out_file_vel
               then (prints @ rest_events (timestamp (plus_vt vt1 rest_time)),
                     rest_result (timestamp (plus_vt vt1 rest_time)))
               else if tool_ok w vel_seg
               then (prints @ Run vel_seg # rest_events (timestamp (plus_vt vt1 rest_time)),
                     rest_result (timestamp (plus_vt vt1 rest_time)))
               else (prints @ [Run vel_seg], Inl CalledProcessError))))"
proof -
  obtain g where g: "get_vel (plus_vt (minus_vt p1 offset) rest_time) (minus_vt p2 offset)
      default_min_speed_duration default_max_speed_duration (draws w i) = Inr g" and n: "0 \<le> g"
    using get_vel_defaults_nonneg by blast
  show ?thesis
    using g n unfolding loop_body_round [OF assms g] by (intro exI [of _ g]) (simp add: Let_def)
qed

theorem loop_body_segments_witness:
  "VideoTimestamp_of ([''00:00:00'', ''00:01:40''] ! 0) =
     Inr \<lparr>timestamp = ''00:00:00'', type = CHR ''|'', hour = 0, minute = 0, second = 0,
          orientation = Positive\<rparr> \<and>
   VideoTimestamp_of ([''00:00:00'', ''00:01:40''] ! (0 + 1)) =
     Inr \<lparr>timestamp = ''00:01:40'', type = CHR ''|'', hour = 0, minute = 1, second = 40,
          orientation = Positive\<rparr> \<and>
   get_vel (from_seconds 5) (from_seconds 100) default_min_speed_duration
     default_max_speed_duration (0, 0, 0) = Inr 9 \<and>
   loop_body \<lparr>file_exists = (\<lambda>_. False), tool_ok = (\<lambda>_. True), draws = (\<lambda>_. (0, 0, 0))\<rparr>
     [''00:00:00'', ''00:01:40''] (from_seconds 5) (from_seconds 0)
     \<lparr>path_str = ''in.mp4'', stem = ''in'', suffix = ''.mp4''\<rparr> ''out'' 0 =
     ([Print ''vt1: 00:00:00'', Print ''vt2: 00:01:40'', Print ''rest time: 00:00:05'',
       Run \<lparr>cmd_input = ''in.mp4'', cmd_output = (''out'', ''in_0_2.mp4''),
            cmd_start = ''00:00:05'', cmd_to = ''00:01:40'', cmd_velocity = 9\<rparr>,
       Print_cmd \<lparr>cmd_input = ''in.mp4'', cmd_output = (''out'', ''in_0_1.mp4''),
                  cmd_start = ''00:00:00'', cmd_to = ''00:00:05'', cmd_velocity = 1\<rparr>,
       Run \<lparr>cmd_input = ''in.mp4'', cmd_output = (''out'', ''in_0_1.mp4''),
            cmd_start = ''00:00:00'', cmd_to = ''00:00:05'', cmd_velocity = 1\<rparr>],
      Inr ())"
proof -
  have a: "VideoTimestamp_of ([''00:00:00'', ''00:01:40''] ! 0) =
     Inr \<lparr>timestamp = ''00:00:00'', type = CHR ''|'', hour = 0, minute = 0, second = 0,
          orientation = Positive\<rparr>"
    by code_simp
  have b: "VideoTimestamp_of ([''00:00:00'', ''00:01:40''] ! (0 + 1)) =
     Inr \<lparr>timestamp = ''00:01:40'', type = CHR ''|'', hour = 0, minute = 1, second = 40,
          orientation = Positive\<rparr>"
    by code_simp
  have c: "get_vel (from_seconds 5) (from_seconds 100) default_min_speed_duration
     default_max_speed_duration (0, 0, 0) = Inr 9"
    by code_simp
  have d: "loop_body \<lparr>file_exists = (\<lambda>_. False), tool_ok = (\<lambda>_. True), draws = (\<lambda>_. (0, 0, 0))\<rparr>
     [''00:00:00'', ''00:01:40''] (from_seconds 5) (from_seconds 0)
     \<lparr>path_str = ''in.mp4'', stem = ''in'', suffix = ''.mp4''\<rparr> ''out'' 0 =
     ([Print ''vt1: 00:00:00'', Print ''vt2: 00:01:40'', Print ''rest time: 00:00:05'',
       Run \<lparr>cmd_input = ''in.mp4'', cmd_output = (''out'', ''in_0_2.mp4''),
            cmd_start = ''00:00:05'', cmd_to = ''00:01:40'', cmd_velocity = 9\<rparr>,
       Print_cmd \<lparr>cmd_input = ''in.mp4'', cmd_output = (''out'', ''in_0_1.mp4''),
                  cmd_start = ''00:00:00'', cmd_to = ''00:00:05'', cmd_velocity = 1\<rparr>,
       Run \<lparr>cmd_input = ''in.mp4'', cmd_output = (''out'', ''in_0_1.mp4''),
            cmd_start = ''00:00:00'', cmd_to = ''00:00:05'', cmd_velocity = 1\<rparr>],
      Inr ())"
    by code_simp
  show ?thesis
    using a b c d
      loop_body_segments [OF a b, of "from_seconds 0" "from_seconds 5"
        "\<lparr>file_exists = (\<lambda>_. False), tool_ok = (\<lambda>_. True), draws = (\<lambda>_. (0, 0, 0))\<rparr>"
        "''out''" "\<lparr>path_str = ''in.mp4'', stem = ''in'', suffix = ''.mp4''\<rparr>"]
    by simp
qed

end
